theory Spec2Isabelle
  imports Main "HOL-Library.Word"
begin

unbundle bit_operations_syntax

section \<open>Byte sources and the standard library calls of the codec\<close>

type_synonym byte = "8 word"
type_synonym uint16 = "16 word"

text \<open>
  A Go \<open>string\<close> and a \<open>[]byte\<close> are both sequences of bytes (a Go string may hold
  any byte, NUL included), so both are byte lists here.

  The \<open>io.Reader\<close> handed to \<open>ReadPacket\<close> is an in-memory reader over the bytes of
  one datagram (\<open>bytes.Reader\<close>); its state is the list of bytes not yet read.
\<close>

type_synonym reader = "byte list"

datatype error = EOF | ErrUnexpectedEOF

datatype ByteOrder = LittleEndian | BigEndian

text \<open>
  \<open>r.Read(p)\<close> on a \<open>bytes.Reader\<close>, for a buffer \<open>p\<close> of length \<open>k\<close>: at the end
  of the input it returns \<open>(0, io.EOF)\<close>; otherwise it copies \<open>min k (remaining)\<close>
  bytes and returns their count with a nil error. The result is the bytes
  copied to the front of \<open>p\<close>, the error, and the reader afterwards.
\<close>

definition reader_Read :: "nat \<Rightarrow> reader \<Rightarrow> (byte list \<times> error option) \<times> reader" where
  "reader_Read k r =
     (if r = [] then (([], Some EOF), r)
      else ((take k r, None), drop k r))"

text \<open>\<open>order.Uint16(bs)\<close> and \<open>order.PutUint16\<close> of \<open>encoding/binary\<close>.\<close>

fun Uint16 :: "ByteOrder \<Rightarrow> byte \<Rightarrow> byte \<Rightarrow> uint16" where
  "Uint16 LittleEndian b0 b1 = ucast b0 OR push_bit 8 (ucast b1)"
| "Uint16 BigEndian b0 b1 = ucast b1 OR push_bit 8 (ucast b0)"

fun PutUint16 :: "ByteOrder \<Rightarrow> uint16 \<Rightarrow> byte list" where
  "PutUint16 LittleEndian v = [ucast v, ucast (drop_bit 8 v)]"
| "PutUint16 BigEndian v = [ucast (drop_bit 8 v), ucast v]"

text \<open>
  \<open>binary.Read(r, order, &x)\<close> for a \<open>uint16\<close>: \<open>io.ReadFull\<close> of two bytes, which
  is \<open>io.EOF\<close> when no byte is left and \<open>io.ErrUnexpectedEOF\<close> when only one is
  (that byte is consumed), then \<open>order.Uint16\<close>.
\<close>

fun binary_Read :: "ByteOrder \<Rightarrow> reader \<Rightarrow> (error + uint16) \<times> reader" where
  "binary_Read order [] = (Inl EOF, [])"
| "binary_Read order [b] = (Inl ErrUnexpectedEOF, [])"
| "binary_Read order (b0 # b1 # r) = (Inr (Uint16 order b0 b1), r)"

section \<open>packet/packet.go\<close>

definition RRQ :: uint16 where "RRQ = 1"
definition WRQ :: uint16 where "WRQ = 2"
definition DATA :: uint16 where "DATA = 3"
definition ACK :: uint16 where "ACK = 4"
definition ERROR :: uint16 where "ERROR = 5"

record Rq =
  Filename :: "byte list"
  Mode :: "byte list"

text \<open>
  The fields \<open>Data.BlockNum\<close>, \<open>Data.Data\<close> and \<open>Ack.BlockNum\<close> of the source carry
  the name of their struct here, since the field names are shared.
\<close>

record DataPkt =
  Data_BlockNum :: uint16
  Data_Data :: "byte list"

record AckPkt =
  Ack_BlockNum :: uint16

record ErrorPkt =
  ErrorCode :: uint16
  ErrorMsg :: "byte list"

datatype Packet = Rrq Rq | Wrq Rq | Data DataPkt | Ack AckPkt | Error ErrorPkt

text \<open>
  A call either returns or panics. \<open>NilDereference\<close> is the runtime panic of a
  method call on a nil interface value, \<open>PanicValue v\<close> is \<open>panic(v)\<close>.
\<close>

datatype panic = NilDereference | PanicValue int

datatype 'a outcome = Return 'a | Panicked panic

text \<open>
  \<open>readString\<close>: the loop \<open>for ch[0] != 0\<close> with the buffer \<open>buf\<close>, the one-byte
  slice \<open>ch\<close> and the reader as its state.
\<close>

function readString_loop :: "byte list \<Rightarrow> byte list \<Rightarrow> reader \<Rightarrow> (error + byte list) \<times> reader" where
  "readString_loop buf ch r =
     (if hd ch \<noteq> 0 then
        (let buf = buf @ ch in
         case reader_Read 1 r of
           ((bs, Some err), r') \<Rightarrow> (Inl err, r')
         | ((bs, None), r') \<Rightarrow> readString_loop buf (bs @ drop (length bs) ch) r')
      else (Inr buf, r))"
  by pat_completeness auto

termination
  apply (relation "measure (\<lambda>(buf, ch, r). length r)")
   apply simp
  apply (auto simp: reader_Read_def split: if_splits)
  done

definition readString :: "reader \<Rightarrow> (error + byte list) \<times> reader" where
  "readString r =
     (let ch = [0] in
      case reader_Read 1 r of
        ((bs, Some err), r') \<Rightarrow> (Inl err, r')
      | ((bs, None), r') \<Rightarrow> readString_loop [] (bs @ drop (length bs) ch) r')"

text \<open>\<open>writeString\<close> on a writer that appends to a byte sequence and never fails.\<close>

definition writeString :: "byte list \<Rightarrow> byte list \<Rightarrow> (nat \<times> error option) \<times> byte list" where
  "writeString s w =
     (let w = w @ s; nS = length s;
          w = w @ [0]; n0 = 1
      in ((nS + n0, None), w))"

text \<open>
  The \<open>readFrom\<close> methods update the struct behind their receiver in place, so
  each takes the struct as it is and returns it as it has become, with the
  error and the reader.
\<close>

definition Rq_readFrom :: "Rq \<Rightarrow> reader \<Rightarrow> ByteOrder \<Rightarrow> (Rq \<times> error option) \<times> reader" where
  "Rq_readFrom rq r order =
     (case readString r of
        (Inl err, r') \<Rightarrow> ((rq, Some err), r')
      | (Inr s, r') \<Rightarrow>
          (let rq = rq\<lparr>Filename := s\<rparr> in
           case readString r' of
             (Inl err, r'') \<Rightarrow> ((rq, Some err), r'')
           | (Inr s', r'') \<Rightarrow> ((rq\<lparr>Mode := s'\<rparr>, None), r'')))"

definition Data_readFrom :: "DataPkt \<Rightarrow> reader \<Rightarrow> ByteOrder \<Rightarrow> (DataPkt \<times> error option) \<times> reader" where
  "Data_readFrom d r order =
     (case binary_Read order r of
        (Inl err, r') \<Rightarrow> ((d, Some err), r')
      | (Inr bn, r') \<Rightarrow>
          (let d = d\<lparr>Data_BlockNum := bn\<rparr>;
               buf = replicate 512 0
           in case reader_Read 512 r' of
                ((bs, err), r'') \<Rightarrow>
                  ((d\<lparr>Data_Data := bs @ drop (length bs) buf\<rparr>, err), r'')))"

definition Ack_readFrom :: "AckPkt \<Rightarrow> reader \<Rightarrow> ByteOrder \<Rightarrow> (AckPkt \<times> error option) \<times> reader" where
  "Ack_readFrom a r order =
     (case binary_Read order r of
        (Inl err, r') \<Rightarrow> ((a, Some err), r')
      | (Inr bn, r') \<Rightarrow> ((a\<lparr>Ack_BlockNum := bn\<rparr>, None), r'))"

definition Error_readFrom :: "ErrorPkt \<Rightarrow> reader \<Rightarrow> ByteOrder \<Rightarrow> (ErrorPkt \<times> error option) \<times> reader" where
  "Error_readFrom e r order =
     (case binary_Read order r of
        (Inl err, r') \<Rightarrow> ((e, Some err), r')
      | (Inr c, r') \<Rightarrow>
          (let e = e\<lparr>ErrorCode := c\<rparr> in
           case readString r' of
             (Inl err, r'') \<Rightarrow> ((e, Some err), r'')
           | (Inr s, r'') \<Rightarrow> ((e\<lparr>ErrorMsg := s\<rparr>, None), r'')))"

text \<open>The method \<open>readFrom\<close> of the interface \<open>Packet\<close>, by the dynamic type.\<close>

fun readFrom :: "Packet \<Rightarrow> reader \<Rightarrow> ByteOrder \<Rightarrow> (Packet \<times> error option) \<times> reader" where
  "readFrom (Rrq rq) r order = (case Rq_readFrom rq r order of ((rq', err), r') \<Rightarrow> ((Rrq rq', err), r'))"
| "readFrom (Wrq rq) r order = (case Rq_readFrom rq r order of ((rq', err), r') \<Rightarrow> ((Wrq rq', err), r'))"
| "readFrom (Data d) r order = (case Data_readFrom d r order of ((d', err), r') \<Rightarrow> ((Data d', err), r'))"
| "readFrom (Ack a) r order = (case Ack_readFrom a r order of ((a', err), r') \<Rightarrow> ((Ack a', err), r'))"
| "readFrom (Error e) r order = (case Error_readFrom e r order of ((e', err), r') \<Rightarrow> ((Error e', err), r'))"

text \<open>
  The \<open>switch Opcode\<close> of \<open>ReadPacket\<close>: the zero value of the struct for the
  opcodes 1 to 5; there is no default case, so \<open>ret\<close> stays the nil interface
  (\<open>None\<close>) for every other opcode.
\<close>

definition new_Packet :: "uint16 \<Rightarrow> Packet option" where
  "new_Packet Opcode =
     (if Opcode = RRQ then Some (Rrq \<lparr>Filename = [], Mode = []\<rparr>)
      else if Opcode = WRQ then Some (Wrq \<lparr>Filename = [], Mode = []\<rparr>)
      else if Opcode = DATA then Some (Data \<lparr>Data_BlockNum = 0, Data_Data = []\<rparr>)
      else if Opcode = ACK then Some (Ack \<lparr>Ack_BlockNum = 0\<rparr>)
      else if Opcode = ERROR then Some (Error \<lparr>ErrorCode = 0, ErrorMsg = []\<rparr>)
      else None)"

text \<open>
  The opcode that the \<open>switch\<close> of \<open>ReadPacket\<close> pairs with each struct type.
\<close>

fun opcode :: "Packet \<Rightarrow> uint16" where
  "opcode (Rrq rq) = RRQ"
| "opcode (Wrq rq) = WRQ"
| "opcode (Data d) = DATA"
| "opcode (Ack a) = ACK"
| "opcode (Error e) = ERROR"

text \<open>
  \<open>ReadPacket\<close> returns the triple \<open>(Packet, binary.ByteOrder, error)\<close>, each
  component \<open>None\<close> for nil, or panics; the reader afterwards comes with it.
\<close>

definition ReadPacket :: "reader \<Rightarrow> (Packet option \<times> ByteOrder option \<times> error option) outcome \<times> reader" where
  "ReadPacket r =
     (let order = LittleEndian in
      case binary_Read order r of
        (Inl err, r') \<Rightarrow> (Return (None, None, Some err), r')
      | (Inr Opcode, r') \<Rightarrow>
          (let (Opcode, order) =
                 (if Opcode > ERROR then (drop_bit 8 Opcode, BigEndian) else (Opcode, order));
               ret = new_Packet Opcode
           in case ret of
                None \<Rightarrow> (Panicked NilDereference, r')
              | Some p \<Rightarrow>
                  (case readFrom p r' order of
                     ((p', err), r'') \<Rightarrow> (Return (Some p', Some order, err), r''))))"

text \<open>
  Modelled from the spec: the fields that \<open>Encode\<close> writes after the opcode.
  \<open>Encode\<close> is not in the source, which has only its helper \<open>writeString\<close>. By
  the spec the fields of the variant follow in the order of the wire format
  table, each integer as two bytes in the given order and each string as its
  raw bytes and a single NUL byte, which is what \<open>writeString\<close> writes.
\<close>

fun Encode_fields :: "Packet \<Rightarrow> ByteOrder \<Rightarrow> byte list \<Rightarrow> byte list" where
  "Encode_fields (Rrq rq) order w = snd (writeString (Mode rq) (snd (writeString (Filename rq) w)))"
| "Encode_fields (Wrq rq) order w = snd (writeString (Mode rq) (snd (writeString (Filename rq) w)))"
| "Encode_fields (Data d) order w = w @ PutUint16 order (Data_BlockNum d) @ Data_Data d"
| "Encode_fields (Ack a) order w = w @ PutUint16 order (Ack_BlockNum a)"
| "Encode_fields (Error e) order w = snd (writeString (ErrorMsg e) (w @ PutUint16 order (ErrorCode e)))"

text \<open>
  Modelled from the spec: \<open>Encode(Packet, ByteOrder, sink)\<close>, missing from the
  source. By the spec it writes the opcode first in the given order, then the
  fields of the variant, and returns the number of bytes written. The sink
  appends to a byte sequence and never fails.
\<close>

definition Encode :: "Packet \<Rightarrow> ByteOrder \<Rightarrow> byte list \<Rightarrow> (nat \<times> error option) \<times> byte list" where
  "Encode p order w =
     (let w' = Encode_fields p order (w @ PutUint16 order (opcode p))
      in ((length w' - length w, None), w'))"

section \<open>server.go\<close>

text \<open>
  A channel of \<open>packet.Packet\<close> values as seen by its receiver: the values that
  will arrive, in order (\<open>None\<close> is the nil interface), and whether the channel
  is closed after them. Receiving from an empty channel that is not closed
  blocks for ever; receiving from an empty closed channel yields nil.
\<close>

record chan =
  queue :: "Packet option list"
  closed :: bool

datatype recv = Received "Packet option" chan | Blocks

definition chan_recv :: "chan \<Rightarrow> recv" where
  "chan_recv c =
     (case queue c of
        x # xs \<Rightarrow> Received x (c\<lparr>queue := xs\<rparr>)
      | [] \<Rightarrow> if closed c then Received None c else Blocks)"

text \<open>
  The fields \<open>in\<close>, \<open>out\<close> and \<open>data\<close> of \<open>PutReq\<close>; \<open>out\<close> is the sequence of packets
  sent so far.
\<close>

record PutReq =
  PutReq_in :: chan
  PutReq_out :: "Packet option list"
  PutReq_data :: "byte list"

text \<open>
  One pass through the body of the loop \<open>for soFar < goal\<close> of \<open>PutReq.Read\<close>, on
  the loop's variables \<open>soFar\<close> and \<open>r\<close>: it ends in the next values of the
  variables, or blocks on the receive, or panics.
\<close>

datatype 'a iteration = Next 'a | Blocked | Panics panic

definition Read_body :: "nat \<times> PutReq \<Rightarrow> (nat \<times> PutReq) iteration" where
  "Read_body s =
     (case s of (soFar, r) \<Rightarrow>
        if length (PutReq_data r) = 0 then
          (case chan_recv (PutReq_in r) of
             Blocks \<Rightarrow> Blocked
           | Received pkt c \<Rightarrow>
               (let r = r\<lparr>PutReq_in := c\<rparr> in
                case pkt of
                  Some (Data dataPkt) \<Rightarrow> Next (soFar, r\<lparr>PutReq_data := Data_Data dataPkt\<rparr>)
                | _ \<Rightarrow> Panics (PanicValue 4)))
        else Next (soFar, r))"

text \<open>
  The loop. \<open>None\<close> is a call that never returns. The function has no return
  statement after the loop; leaving the loop returns the named results \<open>n\<close> and
  \<open>err\<close> as they are, zero and nil.
\<close>

partial_function (option) Read_loop :: "nat \<Rightarrow> nat \<times> PutReq \<Rightarrow> ((nat \<times> error option) \<times> PutReq) outcome option" where
  "Read_loop goal s =
     (if fst s < goal then
        (case Read_body s of
           Next s' \<Rightarrow> Read_loop goal s'
         | Blocked \<Rightarrow> None
         | Panics x \<Rightarrow> Some (Panicked x))
      else Some (Return ((0, None), snd s)))"

declare Read_loop.simps [code]

text \<open>
  The same loop run for at most \<open>n\<close> passes: the values of the loop's variables
  after the \<open>n\<close>-th pass, or where the loop has left off before, or that a pass
  has blocked or panicked.
\<close>

fun Read_passes :: "nat \<Rightarrow> nat \<Rightarrow> nat \<times> PutReq \<Rightarrow> (nat \<times> PutReq) iteration" where
  "Read_passes goal 0 s = Next s"
| "Read_passes goal (Suc n) s =
     (if fst s < goal then
        (case Read_body s of
           Next s' \<Rightarrow> Read_passes goal n s'
         | Blocked \<Rightarrow> Blocked
         | Panics x \<Rightarrow> Panics x)
      else Next s)"

definition PutReq_Read :: "PutReq \<Rightarrow> byte list \<Rightarrow> ((nat \<times> error option) \<times> PutReq) outcome option" where
  "PutReq_Read r p =
     (let goal = length p;
          soFar = 0
      in Read_loop goal (soFar, r))"

text \<open>
  \<open>handleClient\<close>. The function \<open>handleWrite\<close> it calls is not defined in the
  source and is a parameter: it is given the request only, so it may return,
  panic or never return (\<open>None\<close>), and has no access to the two channels.
\<close>

definition handleClient :: "(Rq \<Rightarrow> unit outcome option) \<Rightarrow> chan \<Rightarrow> Packet option list \<Rightarrow> (chan \<times> Packet option list) outcome option" where
  "handleClient handleWrite inp out =
     (case chan_recv inp of
        Blocks \<Rightarrow> None
      | Received pkt c \<Rightarrow>
          (case pkt of
             Some (Rrq p) \<Rightarrow> Some (Return (c, out))
           | Some (Wrq p) \<Rightarrow>
               (case handleWrite p of
                  None \<Rightarrow> None
                | Some (Panicked x) \<Rightarrow> Some (Panicked x)
                | Some (Return u) \<Rightarrow> Some (Return (c, out)))
           | _ \<Rightarrow> Some (Return (c, out))))"

section \<open>Facts about the codec\<close>

lemma reader_Read_1_Cons: "reader_Read (Suc 0) (c # r) = (([c], None), r)"
  by (simp add: reader_Read_def)

lemma reader_Read_Nil: "reader_Read k [] = (([], Some EOF), [])"
  by (simp add: reader_Read_def)

declare readString_loop.simps [simp del]

lemma readString_loop_step:
  "readString_loop buf [c] r =
     (if c \<noteq> 0 then (case r of [] \<Rightarrow> (Inl EOF, []) | d # r' \<Rightarrow> readString_loop (buf @ [c]) [d] r')
      else (Inr buf, r))"
  by (subst readString_loop.simps) (simp add: reader_Read_1_Cons reader_Read_Nil split: list.split)

lemma readString_step:
  "readString r = (case r of [] \<Rightarrow> (Inl EOF, []) | d # r' \<Rightarrow> readString_loop [] [d] r')"
  by (simp add: readString_def reader_Read_1_Cons reader_Read_Nil split: list.split)

lemma readString_loop_eof:
  "c \<noteq> 0 \<Longrightarrow> 0 \<notin> set r \<Longrightarrow> readString_loop buf [c] r = (Inl EOF, [])"
  by (induction r arbitrary: buf c) (simp_all add: readString_loop_step)

lemma readString_loop_nul:
  "c \<noteq> 0 \<Longrightarrow> 0 \<notin> set s \<Longrightarrow> readString_loop buf [c] (s @ 0 # rest) = (Inr (buf @ c # s), rest)"
  by (induction s arbitrary: buf c) (simp_all add: readString_loop_step)

lemma readString_eof: "0 \<notin> set r \<Longrightarrow> readString r = (Inl EOF, [])"
  by (cases r) (simp_all add: readString_step readString_loop_eof)

lemma readString_nul:
  assumes "0 \<notin> set s"
  shows "readString (s @ 0 # rest) = (Inr s, rest)"
proof (cases s)
  case Nil
  then show ?thesis by (simp add: readString_step readString_loop_step)
next
  case (Cons a s')
  with assms show ?thesis by (simp add: readString_step readString_loop_nul)
qed

lemma readString_Inr:
  assumes "readString r = (Inr s, r')"
  shows "r = s @ 0 # r' \<and> 0 \<notin> set s"
proof (cases "0 \<in> set r")
  case True
  then obtain s0 rest where "r = s0 @ 0 # rest" "0 \<notin> set s0"
    by (meson split_list_first)
  with assms show ?thesis by (simp add: readString_nul)
next
  case False
  with assms show ?thesis by (simp add: readString_eof)
qed

lemma Uint16_PutUint16: "PutUint16 order v = [b0, b1] \<Longrightarrow> Uint16 order b0 b1 = v"
  apply (cases order)
   apply (auto intro!: bit_eqI simp: bit_simps)
  done

lemmas opcodes = RRQ_def WRQ_def DATA_def ACK_def ERROR_def

lemma binary_Read_PutUint16:
  "binary_Read order (PutUint16 order v @ rest) = (Inr v, rest)"
proof -
  obtain b0 b1 where b: "PutUint16 order v = [b0, b1]"
    by (cases order) simp_all
  then show ?thesis
    by (simp add: Uint16_PutUint16)
qed

lemma new_Packet_Some:
  "new_Packet v = Some p0 \<Longrightarrow> v \<in> {1, 2, 3, 4, 5}"
  by (auto simp: new_Packet_def opcodes split: if_splits)

lemma ReadPacket_header:
  assumes "new_Packet v = Some p0"
  shows "ReadPacket (PutUint16 order v @ body) =
           (case readFrom p0 body order of
              ((p', err), r') \<Rightarrow> (Return (Some p', Some order, err), r'))"
proof -
  from assms have v: "v \<in> {1, 2, 3, 4, 5}" by (rule new_Packet_Some)
  show ?thesis
  proof (cases order)
    case LittleEndian
    with v assms show ?thesis
      by (auto simp: ReadPacket_def opcodes)
  next
    case BigEndian
    with v assms show ?thesis
      by (auto simp: ReadPacket_def opcodes)
  qed
qed

lemma readFrom_opcode: "readFrom p r order = ((p', err), r') \<Longrightarrow> opcode p' = opcode p"
  by (cases p) (auto split: prod.splits)

lemma new_Packet_opcode: "new_Packet v = Some p0 \<Longrightarrow> opcode p0 = v"
  by (auto simp: new_Packet_def split: if_splits)

lemma legal_opcode: "1 \<le> v \<Longrightarrow> v \<le> 5 \<Longrightarrow> (v :: uint16) \<in> {1,2,3,4,5}"
  by (auto simp: word_le_nat_alt word_unat_eq_iff)

lemma Rq_readFrom_eof:
  "0 \<notin> set body \<Longrightarrow> Rq_readFrom rq body order = ((rq, Some EOF), [])"
  by (simp add: Rq_readFrom_def readString_eof)

lemma Rq_readFrom_eof2:
  "0 \<notin> set f \<Longrightarrow> 0 \<notin> set m \<Longrightarrow>
   Rq_readFrom rq (f @ 0 # m) order = ((rq\<lparr>Filename := f\<rparr>, Some EOF), [])"
  by (simp add: Rq_readFrom_def readString_nul readString_eof)

lemma Rq_readFrom_ok:
  "0 \<notin> set f \<Longrightarrow> 0 \<notin> set m \<Longrightarrow>
   Rq_readFrom rq (f @ 0 # m @ 0 # rest) order = ((rq\<lparr>Filename := f, Mode := m\<rparr>, None), rest)"
  by (simp add: Rq_readFrom_def readString_nul)

lemma Error_readFrom_ok:
  "0 \<notin> set s \<Longrightarrow>
   Error_readFrom e (PutUint16 order c @ s @ 0 # rest) order = ((e\<lparr>ErrorCode := c, ErrorMsg := s\<rparr>, None), rest)"
  by (simp add: Error_readFrom_def binary_Read_PutUint16 readString_nul)

lemma Ack_readFrom_ok:
  "Ack_readFrom a (PutUint16 order bn @ rest) order = ((a\<lparr>Ack_BlockNum := bn\<rparr>, None), rest)"
  by (simp add: Ack_readFrom_def binary_Read_PutUint16)

lemma Data_readFrom_payload:
  "length d \<le> 512 \<Longrightarrow>
   Data_readFrom x (PutUint16 order bn @ d) order =
     ((x\<lparr>Data_BlockNum := bn, Data_Data := d @ replicate (512 - length d) 0\<rparr>,
       if d = [] then Some EOF else None), [])"
  by (simp add: Data_readFrom_def binary_Read_PutUint16 reader_Read_def)

lemma ReadPacket_unknown_opcode:
  assumes "binary_Read LittleEndian src = (Inr v, r')"
    and "(if ERROR < v then drop_bit 8 v else v) = 0 \<or> ERROR < (if ERROR < v then drop_bit 8 v else v)"
  shows "ReadPacket src = (Panicked NilDereference, r')"
proof -
  let ?op = "if ERROR < v then drop_bit 8 v else v"
  from assms(2) have "new_Packet ?op = None"
    by (auto simp: new_Packet_def opcodes)
  with assms(1) show ?thesis
    by (simp add: ReadPacket_def split: if_splits)
qed

lemma takeWhile_nul: "0 \<notin> set s \<Longrightarrow> takeWhile (\<lambda>b. b \<noteq> 0) (s @ (0 :: byte) # t) = s"
  by (induction s) simp_all

lemma Rq_readFrom_None:
  assumes "Rq_readFrom rq0 body order = ((rq, None), rest)"
  shows "body = Filename rq @ 0 # Mode rq @ 0 # rest \<and> 0 \<notin> set (Filename rq) \<and> 0 \<notin> set (Mode rq)"
proof -
  from assms obtain s r1 s' where
    1: "readString body = (Inr s, r1)" and 2: "readString r1 = (Inr s', rest)"
    and rq: "rq = rq0\<lparr>Filename := s, Mode := s'\<rparr>"
    by (auto simp: Rq_readFrom_def Let_def split: prod.splits sum.splits)
  from readString_Inr [OF 1] readString_Inr [OF 2] rq show ?thesis
    by simp
qed

lemma Error_readFrom_None:
  assumes "Error_readFrom e0 body order = ((e, None), rest)"
  shows "\<exists>c0 c1. body = c0 # c1 # ErrorMsg e @ 0 # rest \<and> 0 \<notin> set (ErrorMsg e)"
proof -
  from assms obtain c r1 s where
    1: "binary_Read order body = (Inr c, r1)" and 2: "readString r1 = (Inr s, rest)"
    and e: "e = e0\<lparr>ErrorCode := c, ErrorMsg := s\<rparr>"
    by (auto simp: Error_readFrom_def Let_def split: prod.splits sum.splits)
  from 1 obtain c0 c1 where "body = c0 # c1 # r1"
    by (cases "(order, body)" rule: binary_Read.cases) auto
  with readString_Inr [OF 2] e show ?thesis
    by simp
qed

lemma ReadPacket_Return:
  assumes "ReadPacket src = (Return (Some p, Some order, err), rest)"
  shows "\<exists>b0 b1 body p0. src = b0 # b1 # body \<and> new_Packet (opcode p0) = Some p0
           \<and> readFrom p0 body order = ((p, err), rest)"
proof -
  from assms obtain v body where 1: "binary_Read LittleEndian src = (Inr v, body)"
    by (auto simp: ReadPacket_def split: prod.splits sum.splits)
  then obtain b0 b1 where src: "src = b0 # b1 # body"
    by (cases "(LittleEndian, src)" rule: binary_Read.cases) auto
  let ?op = "if ERROR < v then drop_bit 8 v else v"
  let ?order = "if ERROR < v then BigEndian else LittleEndian"
  from assms 1 obtain p0 where p0: "new_Packet ?op = Some p0"
    and r: "readFrom p0 body ?order = ((p, err), rest)" and o: "order = ?order"
    by (auto simp: ReadPacket_def Let_def split: prod.splits option.splits if_splits)
  from new_Packet_opcode [OF p0] p0 have "new_Packet (opcode p0) = Some p0" by simp
  with src r o show ?thesis by auto
qed

section \<open>Facts about the read loop of the write-transfer\<close>

lemma Read_body_soFar: "Read_body s = Next s' \<Longrightarrow> fst s' = fst s"
  by (auto simp: Read_body_def Let_def split: prod.splits if_splits recv.splits option.splits Packet.splits)

lemma Read_body_out: "Read_body s = Next s' \<Longrightarrow> PutReq_out (snd s') = PutReq_out (snd s)"
  by (auto simp: Read_body_def Let_def split: prod.splits if_splits recv.splits option.splits Packet.splits)

lemma Read_body_full: "PutReq_data (snd s) \<noteq> [] \<Longrightarrow> Read_body s = Next s"
  by (auto simp: Read_body_def split: prod.splits)

lemma Read_loop_spins_aux:
  assumes "Read_loop goal s = Some y"
  shows "\<not> (fst s < goal \<and> PutReq_data (snd s) \<noteq> [])"
proof (rule Read_loop.raw_induct
    [where P = "\<lambda>goal s y. \<not> (fst s < goal \<and> PutReq_data (snd s) \<noteq> [])"])
  fix f :: "nat \<Rightarrow> nat \<times> PutReq \<Rightarrow> ((nat \<times> error option) \<times> PutReq) outcome option"
  fix goal s y
  assume IH: "\<And>g s y. f g s = Some y \<Longrightarrow> \<not> (fst s < g \<and> PutReq_data (snd s) \<noteq> [])"
  assume eq: "(if fst s < goal
      then case Read_body s of Next s' \<Rightarrow> f goal s' | Blocked \<Rightarrow> None
           | Panics x \<Rightarrow> Some (Panicked x)
      else Some (Return ((0, None), snd s))) = Some y"
  show "\<not> (fst s < goal \<and> PutReq_data (snd s) \<noteq> [])"
  proof
    assume a: "fst s < goal \<and> PutReq_data (snd s) \<noteq> []"
    with eq have "f goal s = Some y"
      by (simp add: Read_body_full)
    from IH [OF this] a show False by simp
  qed
next
  show "Read_loop goal s = Some y" by fact
qed

lemma Read_loop_spins:
  "fst s < goal \<Longrightarrow> PutReq_data (snd s) \<noteq> [] \<Longrightarrow> Read_loop goal s = None"
  using Read_loop_spins_aux [of goal s] by (cases "Read_loop goal s") auto

lemma Read_loop_passes:
  "Read_loop goal s =
     (case Read_passes goal n s of
        Next s' \<Rightarrow> Read_loop goal s'
      | Blocked \<Rightarrow> None
      | Panics x \<Rightarrow> Some (Panicked x))"
proof (induction n arbitrary: s)
  case 0
  show ?case by simp
next
  case (Suc n)
  show ?case
  proof (cases "fst s < goal")
    case True
    show ?thesis
    proof (cases "Read_body s")
      case (Next s')
      with True have "Read_loop goal s = Read_loop goal s'"
        by (subst Read_loop.simps) simp
      with Suc [of s'] Next True show ?thesis by simp
    next
      case Blocked
      with True show ?thesis by (subst Read_loop.simps) simp
    next
      case (Panics x)
      with True show ?thesis by (subst Read_loop.simps) simp
    qed
  next
    case False
    then show ?thesis by simp
  qed
qed

lemma Read_passes_out:
  "Read_passes goal n s = Next s' \<Longrightarrow> PutReq_out (snd s') = PutReq_out (snd s)"
proof (induction n arbitrary: s)
  case 0
  then show ?case by simp
next
  case (Suc n)
  show ?case
  proof (cases "fst s < goal")
    case True
    with Suc.prems obtain s1 where b: "Read_body s = Next s1" and p: "Read_passes goal n s1 = Next s'"
      by (cases "Read_body s") simp_all
    from Suc.IH [OF p] Read_body_out [OF b] show ?thesis by simp
  next
    case False
    with Suc.prems show ?thesis by simp
  qed
qed

lemma Read_passes_full:
  "PutReq_data (snd s) \<noteq> [] \<Longrightarrow> Read_passes goal n s = Next s"
  by (induction n) (simp_all add: Read_body_full)

lemma Read_passes_first:
  "0 < n \<Longrightarrow> fst s < goal \<Longrightarrow> Read_body s = Next s' \<Longrightarrow> PutReq_data (snd s') \<noteq> [] \<Longrightarrow>
   Read_passes goal n s = Next s'"
  by (cases n) (simp_all add: Read_passes_full)

section \<open>The claims\<close>

text \<open>
  C1, as amended: for every ReadRequest, WriteRequest and Error packet whose
  strings hold no NUL byte, every Ack packet and every Data packet with a full
  payload of 512 bytes, and for both byte orders, decoding the bytes that
  \<open>Encode\<close> writes for the packet in that order returns the packet again, that
  byte order and a nil error, and leaves nothing unread.
\<close>

theorem Decode_Encode:
  assumes "case p of
             Rrq rq \<Rightarrow> 0 \<notin> set (Filename rq) \<and> 0 \<notin> set (Mode rq)
           | Wrq rq \<Rightarrow> 0 \<notin> set (Filename rq) \<and> 0 \<notin> set (Mode rq)
           | Data d \<Rightarrow> length (Data_Data d) = 512
           | Ack a \<Rightarrow> True
           | Error e \<Rightarrow> 0 \<notin> set (ErrorMsg e)"
  shows "ReadPacket (snd (Encode p order [])) = (Return (Some p, Some order, None), [])"
proof (cases p)
  case (Rrq rq)
  have "new_Packet RRQ = Some (Rrq \<lparr>Filename = [], Mode = []\<rparr>)"
    by (simp add: new_Packet_def)
  with Rrq assms show ?thesis
    using Rq_readFrom_ok [of "Filename rq" "Mode rq" _ "[]"]
    by (simp add: Encode_def writeString_def ReadPacket_header)
next
  case (Wrq rq)
  have "new_Packet WRQ = Some (Wrq \<lparr>Filename = [], Mode = []\<rparr>)"
    by (simp add: new_Packet_def opcodes)
  with Wrq assms show ?thesis
    using Rq_readFrom_ok [of "Filename rq" "Mode rq" _ "[]"]
    by (simp add: Encode_def writeString_def ReadPacket_header)
next
  case (Data d)
  have "new_Packet DATA = Some (Data \<lparr>Data_BlockNum = 0, Data_Data = []\<rparr>)"
    by (simp add: new_Packet_def opcodes)
  moreover from Data assms have "Data_Data d \<noteq> []" by auto
  ultimately show ?thesis
    using Data assms
    by (simp add: Encode_def ReadPacket_header Data_readFrom_payload)
next
  case (Ack a)
  have "new_Packet ACK = Some (Ack \<lparr>Ack_BlockNum = 0\<rparr>)"
    by (simp add: new_Packet_def opcodes)
  with Ack show ?thesis
    using Ack_readFrom_ok [of _ order "Ack_BlockNum a" "[]"]
    by (simp add: Encode_def ReadPacket_header)
next
  case (Error e)
  have "new_Packet ERROR = Some (Error \<lparr>ErrorCode = 0, ErrorMsg = []\<rparr>)"
    by (simp add: new_Packet_def opcodes)
  with Error assms show ?thesis
    using Error_readFrom_ok [of "ErrorMsg e" _ order "ErrorCode e" "[]"]
    by (simp add: Encode_def writeString_def ReadPacket_header)
qed

text \<open>
  The round trip at the request of the spec's scenario A: file name \<open>a.txt\<close>, mode
  \<open>octet\<close>, little-endian.
\<close>

theorem Decode_Encode_witness:
  "ReadPacket (snd (Encode (Rrq \<lparr>Filename = [97, 46, 116, 120, 116], Mode = [111, 99, 116, 101, 116]\<rparr>) LittleEndian []))
     = (Return (Some (Rrq \<lparr>Filename = [97, 46, 116, 120, 116], Mode = [111, 99, 116, 101, 116]\<rparr>),
                Some LittleEndian, None), [])"
  using Decode_Encode [of "Rrq \<lparr>Filename = [97, 46, 116, 120, 116], Mode = [111, 99, 116, 101, 116]\<rparr>" LittleEndian]
  by simp

text \<open>
  C1 as stated fails on a string that holds a NUL byte, which a Go string may:
  the file name \<open>a\<close>, NUL, \<open>b\<close> with mode \<open>o\<close> is written as it is and read back as
  the file name \<open>a\<close> and the mode \<open>b\<close>.
\<close>

theorem Decode_Encode_counterexample:
  "ReadPacket (snd (Encode (Rrq \<lparr>Filename = [97, 0, 98], Mode = [111]\<rparr>) LittleEndian []))
     = (Return (Some (Rrq \<lparr>Filename = [97], Mode = [98]\<rparr>), Some LittleEndian, None), [111, 0])
   \<and> Rrq \<lparr>Filename = [97], Mode = [98]\<rparr> \<noteq> Rrq \<lparr>Filename = [97, 0, 98], Mode = [111]\<rparr>"
proof -
  have enc: "snd (Encode (Rrq \<lparr>Filename = [97, 0, 98], Mode = [111]\<rparr>) LittleEndian [])
      = PutUint16 LittleEndian RRQ @ [97] @ 0 # [98] @ 0 # [111, 0]"
    by (simp add: Encode_def writeString_def)
  have "new_Packet RRQ = Some (Rrq \<lparr>Filename = [], Mode = []\<rparr>)"
    by (simp add: new_Packet_def)
  then show ?thesis
    unfolding enc
    using Rq_readFrom_ok [of "[97]" "[98]" "\<lparr>Filename = [], Mode = []\<rparr>" "[111, 0]" LittleEndian]
    by (simp add: ReadPacket_header del: PutUint16.simps)
qed

text \<open>
  C2: for every legal opcode 1 to 5 and any bytes after it, \<open>ReadPacket\<close> on the
  opcode written little-endian returns a packet of the variant of that opcode
  and \<open>binary.LittleEndian\<close>; the opcode written big-endian reads as a
  little-endian value above 5, shifting that value right by 8 bits gives the
  opcode back, and \<open>ReadPacket\<close> returns a packet of the variant of that opcode
  and \<open>binary.BigEndian\<close>.
\<close>

theorem ReadPacket_byte_order:
  assumes "1 \<le> v" and "v \<le> 5"
  shows "(\<exists>p err r'. ReadPacket (PutUint16 LittleEndian v @ rest) = (Return (Some p, Some LittleEndian, err), r')
            \<and> opcode p = v)
       \<and> (\<exists>b0 b1. PutUint16 BigEndian v = [b0, b1] \<and> ERROR < Uint16 LittleEndian b0 b1
            \<and> drop_bit 8 (Uint16 LittleEndian b0 b1) = v)
       \<and> (\<exists>p err r'. ReadPacket (PutUint16 BigEndian v @ rest) = (Return (Some p, Some BigEndian, err), r')
            \<and> opcode p = v)"
proof -
  from assms have v: "v \<in> {1, 2, 3, 4, 5}" by (rule legal_opcode)
  then obtain p0 where p0: "new_Packet v = Some p0"
    by (auto simp: new_Packet_def opcodes)
  have dec: "\<exists>p err r'. ReadPacket (PutUint16 order v @ rest) = (Return (Some p, Some order, err), r') \<and> opcode p = v"
    for order
  proof -
    obtain p err r' where r: "readFrom p0 rest order = ((p, err), r')"
      by (metis surj_pair)
    then have "ReadPacket (PutUint16 order v @ rest) = (Return (Some p, Some order, err), r')"
      by (simp add: ReadPacket_header [OF p0])
    moreover have "opcode p = v"
      using readFrom_opcode [OF r] new_Packet_opcode [OF p0] by simp
    ultimately show ?thesis by blast
  qed
  have "\<exists>b0 b1. PutUint16 BigEndian v = [b0, b1] \<and> ERROR < Uint16 LittleEndian b0 b1
            \<and> drop_bit 8 (Uint16 LittleEndian b0 b1) = v"
    using v by (auto simp: opcodes)
  with dec [of LittleEndian] dec [of BigEndian] show ?thesis by blast
qed

text \<open>
  C2 at the opcode of a Data packet.
\<close>

theorem ReadPacket_byte_order_witness:
  "(1 :: uint16) \<le> 3 \<and> (3 :: uint16) \<le> 5
   \<and> (\<exists>p err r'. ReadPacket (PutUint16 LittleEndian 3 @ [7, 0, 97]) = (Return (Some p, Some LittleEndian, err), r')
            \<and> opcode p = 3)
   \<and> (\<exists>p err r'. ReadPacket (PutUint16 BigEndian 3 @ [7, 0, 97]) = (Return (Some p, Some BigEndian, err), r')
            \<and> opcode p = 3)"
  using ReadPacket_byte_order [of 3 "[7, 0, 97]"] by simp

text \<open>
  C3 on the code: \<open>Data.readFrom\<close> reads into a slice of 512 bytes and drops the
  count that \<open>Read\<close> returns. A Data packet with block number 1 and the one-byte
  payload \<open>a\<close> decodes to a payload of 512 bytes, the byte \<open>a\<close> and 511 zero bytes;
  with no payload byte at all, decoding returns the error \<open>io.EOF\<close>.
\<close>

theorem Data_payload_length_at_input:
  "ReadPacket [3, 0, 1, 0, 97]
     = (Return (Some (Data \<lparr>Data_BlockNum = 1, Data_Data = 97 # replicate 511 0\<rparr>), Some LittleEndian, None), [])
   \<and> length (97 # replicate 511 (0 :: byte)) = 512
   \<and> ReadPacket [3, 0, 1, 0]
     = (Return (Some (Data \<lparr>Data_BlockNum = 1, Data_Data = replicate 512 0\<rparr>), Some LittleEndian, Some EOF), [])"
  by (simp add: ReadPacket_def new_Packet_def opcodes Data_readFrom_def reader_Read_def)

text \<open>
  C4 on the code: with the opcode 0, the big-endian opcode 7, and the
  little-endian opcode 6 (which normalises to 0), \<open>ReadPacket\<close> calls \<open>readFrom\<close> on
  the nil interface and panics; it returns no error.
\<close>

theorem ReadPacket_unknown_opcode_at_input:
  "ReadPacket [0, 0] = (Panicked NilDereference, [])
   \<and> ReadPacket [0, 7, 1, 2] = (Panicked NilDereference, [1, 2])
   \<and> ReadPacket [6, 0] = (Panicked NilDereference, [])"
  by (simp add: ReadPacket_def new_Packet_def opcodes)

text \<open>
  C5: there is inbound traffic of a single Data packet, with a payload shorter
  than the length the caller asks for, on which \<open>PutReq.Read\<close> never returns.
  Every such packet with a non-empty payload is one: the first pass of the loop
  stores the payload in \<open>r.data\<close>, and from then on each pass leaves \<open>soFar\<close>,
  \<open>goal\<close> and \<open>r\<close> as they are. No pass of the loop body changes \<open>soFar\<close>, the
  running total.
\<close>

theorem PutReq_Read_never_returns:
  assumes "Data_Data d \<noteq> []" and "length (Data_Data d) < length p"
    and "PutReq_data r = []" and "queue (PutReq_in r) = [Some (Data d)]"
  shows "PutReq_Read r p = None \<and> (\<forall>s s'. Read_body s = Next s' \<longrightarrow> fst s' = fst s)"
proof -
  let ?r' = "r\<lparr>PutReq_in := (PutReq_in r)\<lparr>queue := []\<rparr>, PutReq_data := Data_Data d\<rparr>"
  from assms(2) have pos: "0 < length p" by auto
  have body: "Read_body (0, r) = Next (0, ?r')"
    using assms(3,4) by (simp add: Read_body_def chan_recv_def)
  have "Read_loop (length p) (0, r) = Read_loop (length p) (0, ?r')"
    using pos body by (subst Read_loop.simps) simp
  also have "\<dots> = None"
    using pos assms(1) by (intro Read_loop_spins) simp_all
  finally have "PutReq_Read r p = None"
    by (simp add: PutReq_Read_def)
  then show ?thesis
    using Read_body_soFar by blast
qed

text \<open>
  C5 at a Data packet with block number 1 and a one-byte payload, the caller
  asking for two bytes.
\<close>

theorem PutReq_Read_never_returns_witness:
  "Data_Data \<lparr>Data_BlockNum = 1, Data_Data = [97]\<rparr> \<noteq> []
   \<and> length (Data_Data \<lparr>Data_BlockNum = 1, Data_Data = [97]\<rparr>) < length [0, 0 :: byte]
   \<and> PutReq_Read
         \<lparr>PutReq_in = \<lparr>queue = [Some (Data \<lparr>Data_BlockNum = 1, Data_Data = [97]\<rparr>)], closed = False\<rparr>,
          PutReq_out = [], PutReq_data = []\<rparr> [0, 0] = None"
  using PutReq_Read_never_returns
    [of "\<lparr>Data_BlockNum = 1, Data_Data = [97]\<rparr>" "[0, 0]"
        "\<lparr>PutReq_in = \<lparr>queue = [Some (Data \<lparr>Data_BlockNum = 1, Data_Data = [97]\<rparr>)], closed = False\<rparr>,
          PutReq_out = [], PutReq_data = []\<rparr>"]
  by simp

text \<open>
  C6, as amended: for every write-transfer with an empty buffer and a caller
  asking for at least one byte, if the next inbound packet is not a Data packet
  (nil included), \<open>PutReq.Read\<close> panics with the value 4, the code of
  IllegalOperation; it returns no error to its caller.
\<close>

theorem PutReq_Read_non_Data_panics:
  assumes "PutReq_data r = []" and "p \<noteq> []"
    and "queue (PutReq_in r) = pkt # rest" and "\<forall>d. pkt \<noteq> Some (Data d)"
  shows "PutReq_Read r p = Some (Panicked (PanicValue 4))"
proof -
  from assms(1,3,4) have "Read_body (0, r) = Panics (PanicValue 4)"
    by (auto simp: Read_body_def chan_recv_def split: option.splits Packet.splits)
  with assms(2) show ?thesis
    by (simp add: PutReq_Read_def Read_loop.simps)
qed

text \<open>
  C6 as amended, at an Error packet as the next inbound packet.
\<close>

theorem PutReq_Read_non_Data_panics_witness:
  "PutReq_data \<lparr>PutReq_in = \<lparr>queue = [Some (Error \<lparr>ErrorCode = 0, ErrorMsg = []\<rparr>)], closed = True\<rparr>,
      PutReq_out = [], PutReq_data = []\<rparr> = []
   \<and> [7 :: byte] \<noteq> []
   \<and> PutReq_Read
     \<lparr>PutReq_in = \<lparr>queue = [Some (Error \<lparr>ErrorCode = 0, ErrorMsg = []\<rparr>)], closed = True\<rparr>,
      PutReq_out = [], PutReq_data = []\<rparr> [7]
   = Some (Panicked (PanicValue 4))"
  using PutReq_Read_non_Data_panics
    [of "\<lparr>PutReq_in = \<lparr>queue = [Some (Error \<lparr>ErrorCode = 0, ErrorMsg = []\<rparr>)], closed = True\<rparr>,
      PutReq_out = [], PutReq_data = []\<rparr>" "[7]" "Some (Error \<lparr>ErrorCode = 0, ErrorMsg = []\<rparr>)" "[]"]
  by simp

text \<open>
  C6 as stated fails: with an Ack as the next inbound packet the call does not
  return an error, it panics.
\<close>

theorem PutReq_Read_non_Data_counterexample:
  "PutReq_Read
     \<lparr>PutReq_in = \<lparr>queue = [Some (Ack \<lparr>Ack_BlockNum = 0\<rparr>)], closed = False\<rparr>,
      PutReq_out = [], PutReq_data = []\<rparr> [0]
   = Some (Panicked (PanicValue 4))"
  by (simp add: PutReq_Read_def Read_loop.simps Read_body_def chan_recv_def)

text \<open>
  C7, as amended: for every write-transfer with an empty buffer whose next
  inbound packet is a Data packet, whatever its block number, the pass of the
  read loop that receives the packet takes it off the inbound channel and makes
  its payload the internal buffer; after any number of passes of the loop the
  outbound channel holds exactly what it held before the call, so no Ack is ever
  sent; and when the payload is not empty and the caller asks for at least one
  byte, every later pass leaves the transfer as the first pass left it and the
  read operation never returns. The transfer has no Done mark and no expected
  block number.
\<close>

theorem Read_Data_no_Ack:
  assumes "PutReq_data r = []" and "queue (PutReq_in r) = Some (Data d) # rest"
  shows "Read_body (0, r)
           = Next (0, r\<lparr>PutReq_in := (PutReq_in r)\<lparr>queue := rest\<rparr>, PutReq_data := Data_Data d\<rparr>)
       \<and> (\<forall>goal n s'. Read_passes goal n (0, r) = Next s' \<longrightarrow> PutReq_out (snd s') = PutReq_out r)
       \<and> (Data_Data d \<noteq> [] \<longrightarrow>
            (\<forall>goal n. 0 < goal \<longrightarrow>
               Read_passes goal (Suc n) (0, r)
                 = Next (0, r\<lparr>PutReq_in := (PutReq_in r)\<lparr>queue := rest\<rparr>, PutReq_data := Data_Data d\<rparr>)))
       \<and> (Data_Data d \<noteq> [] \<longrightarrow> (\<forall>p. p \<noteq> [] \<longrightarrow> PutReq_Read r p = None))"
proof -
  let ?r' = "r\<lparr>PutReq_in := (PutReq_in r)\<lparr>queue := rest\<rparr>, PutReq_data := Data_Data d\<rparr>"
  have body: "Read_body (0, r) = Next (0, ?r')"
    using assms by (simp add: Read_body_def chan_recv_def)
  have out: "PutReq_out (snd s') = PutReq_out r"
    if "Read_passes goal n (0, r) = Next s'" for goal n s'
    using Read_passes_out [OF that] by simp
  have passes: "Read_passes goal (Suc n) (0, r) = Next (0, ?r')"
    if "Data_Data d \<noteq> []" and "0 < goal" for goal n
    using that body by (simp add: Read_passes_full)
  have never: "PutReq_Read r p = None" if "Data_Data d \<noteq> []" and "p \<noteq> []" for p
  proof -
    from that(2) have "Read_loop (length p) (0, r) = Read_loop (length p) (0, ?r')"
      using Read_loop_passes [of "length p" "(0, r)" "Suc 0"] body by simp
    also have "\<dots> = None"
      using that by (intro Read_loop_spins) simp_all
    finally show ?thesis by (simp add: PutReq_Read_def)
  qed
  from body out passes never show ?thesis by blast
qed

text \<open>
  C7 as amended, at a Data packet with block number 1 and a two-byte payload,
  the caller asking for five bytes: the state after the first pass, the same
  state after four passes, and the call that never returns.
\<close>

theorem Read_Data_no_Ack_witness:
  "PutReq_data \<lparr>PutReq_in = \<lparr>queue = [Some (Data \<lparr>Data_BlockNum = 1, Data_Data = [97, 98]\<rparr>), None], closed = False\<rparr>,
                  PutReq_out = [], PutReq_data = []\<rparr> = []
   \<and> Read_body (0, \<lparr>PutReq_in = \<lparr>queue = [Some (Data \<lparr>Data_BlockNum = 1, Data_Data = [97, 98]\<rparr>), None], closed = False\<rparr>,
                  PutReq_out = [], PutReq_data = []\<rparr>)
     = Next (0, \<lparr>PutReq_in = \<lparr>queue = [None], closed = False\<rparr>, PutReq_out = [], PutReq_data = [97, 98]\<rparr>)
   \<and> Read_passes 5 (Suc 3) (0, \<lparr>PutReq_in = \<lparr>queue = [Some (Data \<lparr>Data_BlockNum = 1, Data_Data = [97, 98]\<rparr>), None], closed = False\<rparr>,
                  PutReq_out = [], PutReq_data = []\<rparr>)
     = Next (0, \<lparr>PutReq_in = \<lparr>queue = [None], closed = False\<rparr>, PutReq_out = [], PutReq_data = [97, 98]\<rparr>)
   \<and> PutReq_Read \<lparr>PutReq_in = \<lparr>queue = [Some (Data \<lparr>Data_BlockNum = 1, Data_Data = [97, 98]\<rparr>), None], closed = False\<rparr>,
                  PutReq_out = [], PutReq_data = []\<rparr> [0, 0, 0, 0, 0] = None"
proof -
  let ?d = "\<lparr>Data_BlockNum = 1, Data_Data = [97, 98 :: byte]\<rparr>"
  let ?r = "\<lparr>PutReq_in = \<lparr>queue = [Some (Data ?d), None], closed = False\<rparr>,
                  PutReq_out = [], PutReq_data = []\<rparr>"
  have h1: "PutReq_data ?r = []" by simp
  have h2: "queue (PutReq_in ?r) = Some (Data ?d) # [None]" by simp
  have h3: "Data_Data ?d \<noteq> []" by simp
  note t = Read_Data_no_Ack [OF h1 h2]
  from t have a: "Read_body (0, ?r)
     = Next (0, \<lparr>PutReq_in = \<lparr>queue = [None], closed = False\<rparr>, PutReq_out = [], PutReq_data = [97, 98]\<rparr>)"
    by (simp del: Read_passes.simps)
  from t h3 have "\<forall>goal n. 0 < goal \<longrightarrow> Read_passes goal (Suc n) (0, ?r)
     = Next (0, \<lparr>PutReq_in = \<lparr>queue = [None], closed = False\<rparr>, PutReq_out = [], PutReq_data = [97, 98]\<rparr>)"
    by (simp del: Read_passes.simps)
  then have b: "Read_passes 5 (Suc 3) (0, ?r)
     = Next (0, \<lparr>PutReq_in = \<lparr>queue = [None], closed = False\<rparr>, PutReq_out = [], PutReq_data = [97, 98]\<rparr>)"
    by (metis zero_less_numeral)
  from t h3 have "\<forall>p. p \<noteq> [] \<longrightarrow> PutReq_Read ?r p = None"
    by blast
  then have c: "PutReq_Read ?r [0, 0, 0, 0, 0] = None"
    by simp
  from h1 a b c show ?thesis by blast
qed

text \<open>
  C7 as stated fails: after the Data packet with block number 1 is received the
  outbound channel is empty, after four passes of the loop it is still empty, so
  it holds no Ack for block 1, and the call never returns.
\<close>

theorem Read_Data_no_Ack_counterexample:
  "Read_body (0, \<lparr>PutReq_in = \<lparr>queue = [Some (Data \<lparr>Data_BlockNum = 1, Data_Data = [97]\<rparr>)], closed = False\<rparr>,
                  PutReq_out = [], PutReq_data = []\<rparr>)
     = Next (0, \<lparr>PutReq_in = \<lparr>queue = [], closed = False\<rparr>, PutReq_out = [], PutReq_data = [97]\<rparr>)
   \<and> Read_passes 1 4 (0, \<lparr>PutReq_in = \<lparr>queue = [Some (Data \<lparr>Data_BlockNum = 1, Data_Data = [97]\<rparr>)], closed = False\<rparr>,
                  PutReq_out = [], PutReq_data = []\<rparr>)
     = Next (0, \<lparr>PutReq_in = \<lparr>queue = [], closed = False\<rparr>, PutReq_out = [], PutReq_data = [97]\<rparr>)
   \<and> Some (Ack \<lparr>Ack_BlockNum = 1\<rparr>)
       \<notin> set (PutReq_out \<lparr>PutReq_in = \<lparr>queue = [], closed = False\<rparr>, PutReq_out = [], PutReq_data = [97]\<rparr>)
   \<and> PutReq_Read \<lparr>PutReq_in = \<lparr>queue = [Some (Data \<lparr>Data_BlockNum = 1, Data_Data = [97]\<rparr>)], closed = False\<rparr>,
                  PutReq_out = [], PutReq_data = []\<rparr> [0] = None"
proof -
  let ?r = "\<lparr>PutReq_in = \<lparr>queue = [Some (Data \<lparr>Data_BlockNum = 1, Data_Data = [97]\<rparr>)], closed = False\<rparr>,
                  PutReq_out = [], PutReq_data = []\<rparr>"
  let ?r' = "\<lparr>PutReq_in = \<lparr>queue = [], closed = False\<rparr>, PutReq_out = [], PutReq_data = [97]\<rparr>"
  have body: "Read_body (0, ?r) = Next (0, ?r')"
    by (simp add: Read_body_def chan_recv_def)
  have passes: "Read_passes 1 4 (0, ?r) = Next (0, ?r')"
    by (rule Read_passes_first) (simp_all add: body)
  have "Read_loop 1 (0, ?r) = Read_loop 1 (0, ?r')"
    by (subst Read_loop.simps) (simp add: body)
  also have "\<dots> = None"
    by (rule Read_loop_spins) simp_all
  finally have "PutReq_Read ?r [0] = None"
    by (simp add: PutReq_Read_def)
  with body passes show ?thesis by simp
qed

text \<open>
  C8, as amended: for every ReadRequest or WriteRequest source, in either byte
  order, the parser reads exactly two NUL-terminated strings, the file name and
  then the mode, and leaves the bytes after the second NUL unread; if the source
  ends before the NUL of the file name, or before the NUL of the mode, decoding
  fails with \<open>io.EOF\<close>, the reader's own error at the end of its input, which
  \<open>readString\<close> returns unchanged. The packet returned with the error holds the
  strings read so far.
\<close>

theorem Rq_decode:
  assumes "k = Rrq \<or> k = Wrq" and "0 \<notin> set f" and "0 \<notin> set m"
  shows "(0 \<notin> set body \<longrightarrow>
            ReadPacket (PutUint16 order (opcode (k rq0)) @ body)
              = (Return (Some (k \<lparr>Filename = [], Mode = []\<rparr>), Some order, Some EOF), []))
       \<and> ReadPacket (PutUint16 order (opcode (k rq0)) @ f @ 0 # m)
              = (Return (Some (k \<lparr>Filename = f, Mode = []\<rparr>), Some order, Some EOF), [])
       \<and> ReadPacket (PutUint16 order (opcode (k rq0)) @ f @ 0 # m @ 0 # rest)
              = (Return (Some (k \<lparr>Filename = f, Mode = m\<rparr>), Some order, None), rest)"
proof -
  have "new_Packet (opcode (k rq0)) = Some (k \<lparr>Filename = [], Mode = []\<rparr>)"
    using assms(1) by (auto simp: new_Packet_def opcodes)
  then show ?thesis
    using assms
    by (auto simp: ReadPacket_header Rq_readFrom_eof Rq_readFrom_eof2 Rq_readFrom_ok)
qed

text \<open>
  C8 as amended, at a big-endian WriteRequest.
\<close>

theorem Rq_decode_witness:
  "0 \<notin> set [97 :: byte] \<and> 0 \<notin> set [98 :: byte]
   \<and> ReadPacket (PutUint16 BigEndian (opcode (Wrq \<lparr>Filename = [], Mode = []\<rparr>)) @ [97, 98])
        = (Return (Some (Wrq \<lparr>Filename = [], Mode = []\<rparr>), Some BigEndian, Some EOF), [])
   \<and> ReadPacket (PutUint16 BigEndian (opcode (Wrq \<lparr>Filename = [], Mode = []\<rparr>)) @ [97] @ 0 # [98])
        = (Return (Some (Wrq \<lparr>Filename = [97], Mode = []\<rparr>), Some BigEndian, Some EOF), [])
   \<and> ReadPacket (PutUint16 BigEndian (opcode (Wrq \<lparr>Filename = [], Mode = []\<rparr>)) @ [97] @ 0 # [98] @ 0 # [99])
        = (Return (Some (Wrq \<lparr>Filename = [97], Mode = [98]\<rparr>), Some BigEndian, None), [99])"
  using Rq_decode [of Wrq "[97]" "[98]" "[97, 98]" BigEndian "\<lparr>Filename = [], Mode = []\<rparr>" "[99]"]
  by simp

text \<open>
  C8 as stated names the error MalformedPacket; the code has no such error. On
  a little-endian ReadRequest whose file name \<open>a\<close> has no NUL after it, the error
  returned is \<open>io.EOF\<close>.
\<close>

theorem Rq_decode_truncated_counterexample:
  "ReadPacket [1, 0, 97] = (Return (Some (Rrq \<lparr>Filename = [], Mode = []\<rparr>), Some LittleEndian, Some EOF), [])"
proof -
  have "new_Packet 1 = Some (Rrq \<lparr>Filename = [], Mode = []\<rparr>)"
    by (simp add: new_Packet_def opcodes)
  then show ?thesis
    using ReadPacket_header [of 1 _ LittleEndian "[97]"] Rq_readFrom_eof [of "[97]"]
    by simp
qed

text \<open>
  C9: whenever \<open>ReadPacket\<close> returns a ReadRequest, WriteRequest or Error packet
  with a nil error, each string of the packet holds no NUL byte and is the run
  of source bytes up to the first NUL from where the field starts: the file name
  from the byte after the opcode, the mode from the byte after the NUL of the
  file name, the message from the byte after the error code. The bytes left
  unread are those after the NUL of the last string.
\<close>

theorem decoded_strings:
  assumes "ReadPacket src = (Return (Some p, Some order, None), rest)"
  shows "(\<forall>rq. p = Rrq rq \<or> p = Wrq rq \<longrightarrow>
            0 \<notin> set (Filename rq) \<and> 0 \<notin> set (Mode rq)
            \<and> drop 2 src = Filename rq @ 0 # Mode rq @ 0 # rest
            \<and> Filename rq = takeWhile (\<lambda>b. b \<noteq> 0) (drop 2 src)
            \<and> Mode rq = takeWhile (\<lambda>b. b \<noteq> 0) (drop (2 + length (Filename rq) + 1) src))
       \<and> (\<forall>e. p = Error e \<longrightarrow>
            0 \<notin> set (ErrorMsg e)
            \<and> drop 4 src = ErrorMsg e @ 0 # rest
            \<and> ErrorMsg e = takeWhile (\<lambda>b. b \<noteq> 0) (drop 4 src))"
proof -
  from ReadPacket_Return [OF assms] obtain b0 b1 body p0 where
    src: "src = b0 # b1 # body" and p0: "new_Packet (opcode p0) = Some p0"
    and r: "readFrom p0 body order = ((p, None), rest)"
    by blast
  have rq: "0 \<notin> set (Filename rq) \<and> 0 \<notin> set (Mode rq)
            \<and> drop 2 src = Filename rq @ 0 # Mode rq @ 0 # rest
            \<and> Filename rq = takeWhile (\<lambda>b. b \<noteq> 0) (drop 2 src)
            \<and> Mode rq = takeWhile (\<lambda>b. b \<noteq> 0) (drop (2 + length (Filename rq) + 1) src)"
    if "p = Rrq rq \<or> p = Wrq rq" for rq
  proof -
    from that r obtain rq0 where "Rq_readFrom rq0 body order = ((rq, None), rest)"
      by (cases p0) (auto split: prod.splits)
    from Rq_readFrom_None [OF this] src show ?thesis
      by (simp add: takeWhile_nul)
  qed
  have e: "0 \<notin> set (ErrorMsg e) \<and> drop 4 src = ErrorMsg e @ 0 # rest
            \<and> ErrorMsg e = takeWhile (\<lambda>b. b \<noteq> 0) (drop 4 src)"
    if "p = Error e" for e
  proof -
    from that r obtain e0 where "Error_readFrom e0 body order = ((e, None), rest)"
      by (cases p0) (auto split: prod.splits)
    from Error_readFrom_None [OF this] src show ?thesis
      by (auto simp: takeWhile_nul)
  qed
  from rq e show ?thesis by blast
qed

text \<open>
  C9 at a big-endian Error packet with code 1 and message \<open>no\<close>, followed by one
  more byte.
\<close>

theorem decoded_strings_witness:
  "ReadPacket [0, 5, 0, 1, 110, 111, 0, 9]
     = (Return (Some (Error \<lparr>ErrorCode = 1, ErrorMsg = [110, 111]\<rparr>), Some BigEndian, None), [9])
   \<and> 0 \<notin> set (ErrorMsg \<lparr>ErrorCode = 1, ErrorMsg = [110, 111]\<rparr>)
   \<and> drop 4 [0, 5, 0, 1, 110, 111, 0, 9 :: byte] = ErrorMsg \<lparr>ErrorCode = 1, ErrorMsg = [110, 111]\<rparr> @ 0 # [9]"
proof -
  have "new_Packet 5 = Some (Error \<lparr>ErrorCode = 0, ErrorMsg = []\<rparr>)"
    by (simp add: new_Packet_def opcodes)
  then have h: "ReadPacket [0, 5, 0, 1, 110, 111, 0, 9]
     = (Return (Some (Error \<lparr>ErrorCode = 1, ErrorMsg = [110, 111]\<rparr>), Some BigEndian, None), [9])"
    using ReadPacket_header [of 5 _ BigEndian "[0, 1, 110, 111, 0, 9]"]
      Error_readFrom_ok [of "[110, 111]" "\<lparr>ErrorCode = 0, ErrorMsg = []\<rparr>" BigEndian 1 "[9]"]
    by simp
  from decoded_strings [OF h] h show ?thesis
    by simp
qed

text \<open>
  C10: when the first packet on the inbound channel is a ReadRequest, a Data, an
  Ack or an Error packet, \<open>handleClient\<close> takes it off the channel and returns with
  the outbound channel as it was, whatever \<open>handleWrite\<close> is; when it is a
  WriteRequest, \<open>handleClient\<close> calls \<open>handleWrite\<close> on it.
\<close>

theorem handleClient_dispatch:
  assumes "queue inp = Some pkt # rest"
  shows "((\<exists>q. pkt = Rrq q) \<or> (\<exists>d. pkt = Data d) \<or> (\<exists>a. pkt = Ack a) \<or> (\<exists>e. pkt = Error e) \<longrightarrow>
            handleClient handleWrite inp out = Some (Return (inp\<lparr>queue := rest\<rparr>, out)))
       \<and> (\<forall>q. pkt = Wrq q \<longrightarrow>
            handleClient handleWrite inp out =
              (case handleWrite q of
                 None \<Rightarrow> None
               | Some (Panicked x) \<Rightarrow> Some (Panicked x)
               | Some (Return u) \<Rightarrow> Some (Return (inp\<lparr>queue := rest\<rparr>, out))))"
  using assms by (auto simp: handleClient_def chan_recv_def)

text \<open>
  C10 at a ReadRequest, with a \<open>handleWrite\<close> that would never return.
\<close>

theorem handleClient_dispatch_witness:
  "queue \<lparr>queue = [Some (Rrq \<lparr>Filename = [97], Mode = [98]\<rparr>)], closed = False\<rparr>
     = Some (Rrq \<lparr>Filename = [97], Mode = [98]\<rparr>) # []
   \<and> handleClient (\<lambda>q. None) \<lparr>queue = [Some (Rrq \<lparr>Filename = [97], Mode = [98]\<rparr>)], closed = False\<rparr> []
     = Some (Return (\<lparr>queue = [], closed = False\<rparr>, []))"
  using handleClient_dispatch
    [of "\<lparr>queue = [Some (Rrq \<lparr>Filename = [97], Mode = [98]\<rparr>)], closed = False\<rparr>"
        "Rrq \<lparr>Filename = [97], Mode = [98]\<rparr>" "[]" "\<lambda>q. None" "[]"]
  by simp

end
